theory Spec2Isabelle
  imports Main "HOL-Library.Sublist"
begin

section \<open>Python values\<close>

text \<open>
  The program is dynamically typed: the groups of a regular-expression match, the
  documents decoded from JSON and the absent value \<open>None\<close> all travel through the
  same variables. \<open>pyval\<close> is the universe of those values. A Python \<open>str\<close> is a
  \<open>string\<close> whose characters are the code points below 256; a JSON object is an
  association list in document order. JSON numbers with a fraction or an exponent
  (Python \<open>float\<close>) are not represented.
\<close>

datatype pyval =
    PNone
  | PBool bool
  | PInt int
  | PStr string
  | PList "pyval list"
  | PDict "(string \<times> pyval) list"

text \<open>Truth value of an object, as \<open>not x\<close>, \<open>x or y\<close> and \<open>if x\<close> test it.\<close>

fun py_truthy :: "pyval \<Rightarrow> bool" where
  "py_truthy PNone = False"
| "py_truthy (PBool b) = b"
| "py_truthy (PInt i) = (i \<noteq> 0)"
| "py_truthy (PStr s) = (s \<noteq> [])"
| "py_truthy (PList vs) = (vs \<noteq> [])"
| "py_truthy (PDict kvs) = (kvs \<noteq> [])"

text \<open>\<open>x or y\<close>: the first operand when it is true, the second otherwise.\<close>

definition py_or :: "pyval \<Rightarrow> pyval \<Rightarrow> pyval" where
  "py_or x y = (if py_truthy x then x else y)"

subsection \<open>Decimal rendering of integers\<close>

definition digit_char :: "nat \<Rightarrow> char" where
  "digit_char d = ''0123456789'' ! (d mod 10)"

function digits_of_nat :: "nat \<Rightarrow> string" where
  "digits_of_nat n =
     (if n < 10 then [digit_char n] else digits_of_nat (n div 10) @ [digit_char (n mod 10)])"
  by pat_completeness auto
termination
  by (relation "measure (\<lambda>n. n)") auto

declare digits_of_nat.simps [simp del]

text \<open>\<open>str(i)\<close> and \<open>f"{i}"\<close> for an \<open>int\<close>.\<close>

definition str_of_int :: "int \<Rightarrow> string" where
  "str_of_int i = (if i < 0 then CHR ''-'' # digits_of_nat (nat (- i)) else digits_of_nat (nat i))"

section \<open>Regular expressions: \<open>re.match\<close>\<close>

text \<open>
  The patterns of this program are sequences of literal text and capturing groups of
  the form \<open>([class]+)\<close>. \<open>re.match\<close> anchors the pattern at the start of the
  subject and says nothing about what follows the match. A \<open>+\<close> is greedy: the
  engine first takes the longest run of characters of the class and, when the rest of
  the pattern fails there, gives characters back one at a time, down to one.
\<close>

datatype re_item =
    Lit string
  | Group "char \<Rightarrow> bool"

text \<open>\<open>backtrack f n\<close>: the first success among \<open>f n, f (n - 1), ..., f 1\<close>.\<close>

fun backtrack :: "(nat \<Rightarrow> 'a option) \<Rightarrow> nat \<Rightarrow> 'a option" where
  "backtrack f 0 = None"
| "backtrack f (Suc n) = (case f (Suc n) of Some r \<Rightarrow> Some r | None \<Rightarrow> backtrack f n)"

fun re_match_items :: "re_item list \<Rightarrow> string \<Rightarrow> string list option" where
  "re_match_items [] s = Some []"
| "re_match_items (Lit l # its) s =
     (if take (length l) s = l then re_match_items its (drop (length l) s) else None)"
| "re_match_items (Group c # its) s =
     backtrack (\<lambda>n. map_option (\<lambda>gs. take n s # gs) (re_match_items its (drop n s)))
       (length (takeWhile c s))"

text \<open>The classes of the pattern: \<open>[^/]\<close> and \<open>\d\<close>.\<close>

definition not_slash :: "char \<Rightarrow> bool" where
  "not_slash c = (c \<noteq> CHR ''/'')"

definition is_digit :: "char \<Rightarrow> bool" where
  "is_digit c = (c \<in> set ''0123456789'')"

section \<open>The URL parser\<close>

text \<open>\<open>r'https://github\.com/([^/]+)/([^/]+)/pull/(\d+)'\<close>\<close>

definition pattern :: "re_item list" where
  "pattern =
     [Lit ''https://github.com/'', Group not_slash, Lit ''/'', Group not_slash,
      Lit ''/pull/'', Group is_digit]"

text \<open>
  \<open>match.groups()\<close> is the tuple of the three captured strings; without a match the
  function returns three \<open>None\<close>s.
\<close>

definition parse_github_url :: "string \<Rightarrow> pyval \<times> pyval \<times> pyval" where
  "parse_github_url url =
     (case re_match_items pattern url of
        Some [owner, repo, number] \<Rightarrow> (PStr owner, PStr repo, PStr number)
      | _ \<Rightarrow> (PNone, PNone, PNone))"

section \<open>Objects decoded from JSON\<close>

text \<open>
  The exceptions that reading a decoded document can raise. A \<open>dict\<close> is subscripted by
  key and raises \<open>KeyError\<close> for a key it does not hold; subscripting anything else
  with a string raises \<open>TypeError\<close>, as does \<open>len\<close> or a \<open>for\<close> loop over a value that
  is not a container. The keys of a decoded \<open>dict\<close> are distinct.
\<close>

datatype py_exn = KeyError string | TypeError

text \<open>Sequencing: the first exception ends the computation.\<close>

definition and_then :: "'e + 'a \<Rightarrow> ('a \<Rightarrow> 'e + 'b) \<Rightarrow> 'e + 'b" where
  "and_then m f = (case m of Inl e \<Rightarrow> Inl e | Inr x \<Rightarrow> f x)"

text \<open>\<open>v[k]\<close> for a string \<open>k\<close>.\<close>

fun py_getitem :: "pyval \<Rightarrow> string \<Rightarrow> py_exn + pyval" where
  "py_getitem (PDict kvs) k = (case map_of kvs k of None \<Rightarrow> Inl (KeyError k) | Some v \<Rightarrow> Inr v)"
| "py_getitem PNone k = Inl TypeError"
| "py_getitem (PBool b) k = Inl TypeError"
| "py_getitem (PInt i) k = Inl TypeError"
| "py_getitem (PStr s) k = Inl TypeError"
| "py_getitem (PList vs) k = Inl TypeError"

text \<open>\<open>len(v)\<close>.\<close>

fun py_len :: "pyval \<Rightarrow> py_exn + nat" where
  "py_len (PStr s) = Inr (length s)"
| "py_len (PList vs) = Inr (length vs)"
| "py_len (PDict kvs) = Inr (length kvs)"
| "py_len PNone = Inl TypeError"
| "py_len (PBool b) = Inl TypeError"
| "py_len (PInt i) = Inl TypeError"

text \<open>
  The values a \<open>for\<close> loop visits: the elements of a list, the keys of a dict, the
  characters of a string.
\<close>

fun py_iter :: "pyval \<Rightarrow> py_exn + pyval list" where
  "py_iter (PList vs) = Inr vs"
| "py_iter (PDict kvs) = Inr (map (\<lambda>kv. PStr (fst kv)) kvs)"
| "py_iter (PStr s) = Inr (map (\<lambda>c. PStr [c]) s)"
| "py_iter PNone = Inl TypeError"
| "py_iter (PBool b) = Inl TypeError"
| "py_iter (PInt i) = Inl TypeError"

text \<open>\<open>k in v\<close> for a string \<open>k\<close>: a key of a dict, an element of a list, a substring.\<close>

fun py_in :: "string \<Rightarrow> pyval \<Rightarrow> py_exn + bool" where
  "py_in k (PDict kvs) = Inr (k \<in> fst ` set kvs)"
| "py_in k (PList vs) = Inr (PStr k \<in> set vs)"
| "py_in k (PStr s) = Inr (sublist k s)"
| "py_in k PNone = Inl TypeError"
| "py_in k (PBool b) = Inl TypeError"
| "py_in k (PInt i) = Inl TypeError"

text \<open>
  What a replacement field \<open>{v}\<close> of an f-string renders. A string renders as itself.
  Lists and dicts render through their \<open>repr\<close>, which the development leaves open: it
  is the parameter \<open>R\<close>, and every result holds for every \<open>R\<close>.
\<close>

type_synonym repr = "pyval \<Rightarrow> string"

fun py_str :: "repr \<Rightarrow> pyval \<Rightarrow> string" where
  "py_str R PNone = ''None''"
| "py_str R (PBool b) = (if b then ''True'' else ''False'')"
| "py_str R (PInt i) = str_of_int i"
| "py_str R (PStr s) = s"
| "py_str R (PList vs) = R (PList vs)"
| "py_str R (PDict kvs) = R (PDict kvs)"

section \<open>The reviewer object\<close>

text \<open>
  A completion request, the content blocks of the message that answers it, and the
  client: what \<open>client.messages.create\<close> does with a request, which is either to raise
  (\<open>Inl\<close> the \<open>str\<close> of the exception) or to return a message (\<open>Inr\<close> its content
  blocks). Only a text block has the attribute \<open>text\<close>; \<open>OtherBlock m\<close> is a block on
  which reading \<open>text\<close> raises an \<open>AttributeError\<close> whose \<open>str\<close> is \<open>m\<close>.
\<close>

record completion_request =
  model :: string
  max_tokens :: nat
  messages :: "(string \<times> string) list"

datatype content_block = TextBlock string | OtherBlock string

type_synonym client = "completion_request \<Rightarrow> string + content_block list"

record reviewer =
  github_token :: "string option"
  anthropic_api_key :: "string option"
  client :: "client option"

text \<open>
  \<open>__init__\<close>: \<open>getenv\<close> is the process environment and \<open>Anthropic\<close> the constructor of
  the SDK's client. A variable that is unset or empty is false in \<open>if not ...\<close>; the
  two \<open>st.error\<close> notices belong to the presentation layer and are not modelled.
\<close>

definition reviewer_init :: "(string \<Rightarrow> client) \<Rightarrow> (string \<Rightarrow> string option) \<Rightarrow> reviewer" where
  "reviewer_init Anthropic getenv =
     (let token = getenv ''GITHUB_TOKEN''; key = getenv ''ANTHROPIC_API_KEY'' in
      \<lparr>github_token = token,
       anthropic_api_key = key,
       client = (case key of None \<Rightarrow> None
                 | Some k \<Rightarrow> if k \<noteq> [] then Some (Anthropic k) else None)\<rparr>)"

section \<open>The PR data fetcher\<close>

text \<open>
  A response of \<open>requests.get\<close>: its status code and what \<open>response.json()\<close> gives,
  which is the decoded body or an exception (\<open>Inl\<close> its \<open>str\<close>). The network is a
  state \<open>'w\<close> that every call may change; a call raises (\<open>Inl\<close> the \<open>str\<close> of the
  exception) or returns a response.
\<close>

record response =
  status_code :: int
  json :: "string + pyval"

type_synonym 'w http_get = "'w \<Rightarrow> string \<Rightarrow> (string \<times> string) list \<Rightarrow> (string + response) \<times> 'w"

text \<open>The body of the \<open>try\<close> block: \<open>Inl\<close> is an exception that leaves it.\<close>

definition fetch_try ::
  "'w http_get \<Rightarrow> (string \<times> string) list \<Rightarrow> string \<Rightarrow> string \<Rightarrow> 'w
     \<Rightarrow> (string + pyval \<times> pyval) \<times> 'w" where
  "fetch_try get headers pr_url files_url w =
     (case get w pr_url headers of
        (Inl e, w1) \<Rightarrow> (Inl e, w1)
      | (Inr pr_response, w1) \<Rightarrow>
          (case get w1 files_url headers of
             (Inl e, w2) \<Rightarrow> (Inl e, w2)
           | (Inr files_response, w2) \<Rightarrow>
               (if status_code pr_response \<noteq> 200 then
                  Inr (PNone, PStr (''Error fetching PR: '' @ str_of_int (status_code pr_response)))
                else if status_code files_response \<noteq> 200 then
                  Inr (PNone,
                    PStr (''Error fetching PR files: '' @ str_of_int (status_code files_response)))
                else
                  (case json pr_response of
                     Inl e \<Rightarrow> Inl e
                   | Inr pr_data \<Rightarrow>
                       (case json files_response of
                          Inl e \<Rightarrow> Inl e
                        | Inr files_data \<Rightarrow>
                            Inr (PDict [(''pr'', pr_data), (''files'', files_data)], PNone))),
                w2)))"

text \<open>
  The headers and the two URLs. An unset token is interpolated as \<open>None\<close>; \<open>owner\<close>,
  \<open>repo\<close> and \<open>pr_number\<close> are the strings the parser captured.
\<close>

definition request_headers :: "reviewer \<Rightarrow> (string \<times> string) list" where
  "request_headers self =
     [(''Authorization'',
        ''token '' @ (case github_token self of None \<Rightarrow> ''None'' | Some t \<Rightarrow> t)),
      (''Accept'', ''application/vnd.github.v3+json'')]"

definition pr_url :: "string \<Rightarrow> string \<Rightarrow> string \<Rightarrow> string" where
  "pr_url owner repo pr_number =
     ''https://api.github.com/repos/'' @ owner @ ''/'' @ repo @ ''/pulls/'' @ pr_number"

definition files_url :: "string \<Rightarrow> string \<Rightarrow> string \<Rightarrow> string" where
  "files_url owner repo pr_number =
     ''https://api.github.com/repos/'' @ owner @ ''/'' @ repo @ ''/pulls/'' @ pr_number
       @ ''/files''"

text \<open>
  \<open>fetch_pr_data\<close>: the pair \<open>(data, error)\<close> it returns, and the network after it.
  The \<open>except\<close> clause turns an exception of the \<open>try\<close> block into a message.
\<close>

definition fetch_pr_data ::
  "'w http_get \<Rightarrow> reviewer \<Rightarrow> string \<Rightarrow> string \<Rightarrow> string \<Rightarrow> 'w \<Rightarrow> (pyval \<times> pyval) \<times> 'w" where
  "fetch_pr_data get self owner repo pr_number w =
     (case fetch_try get (request_headers self) (pr_url owner repo pr_number)
             (files_url owner repo pr_number) w of
        (Inr result, w') \<Rightarrow> (result, w')
      | (Inl e, w') \<Rightarrow> ((PNone, PStr (''Error: '' @ e)), w'))"

text \<open>
  A call that gave the fetcher what it needs: it returned, with status 200 and a body
  that decodes.
\<close>

definition fetched_ok :: "string + response \<Rightarrow> bool" where
  "fetched_ok outcome =
     (case outcome of
        Inl e \<Rightarrow> False
      | Inr r \<Rightarrow> status_code r = 200 \<and> (case json r of Inl e \<Rightarrow> False | Inr d \<Rightarrow> True))"

section \<open>The prompt formatter\<close>

text \<open>The body of the loop over the files: \<open>formatted\<close> before and after one file.\<close>

definition format_file :: "repr \<Rightarrow> string \<Rightarrow> pyval \<Rightarrow> py_exn + string" where
  "format_file R formatted file =
     and_then (py_getitem file ''filename'') (\<lambda>filename.
     let formatted = formatted @ ''\<newline>### '' @ py_str R filename in
     and_then (py_getitem file ''status'') (\<lambda>status.
     let formatted = formatted @ ''\<newline>- **Status:** '' @ py_str R status in
     and_then (py_getitem file ''additions'') (\<lambda>additions.
     and_then (py_getitem file ''deletions'') (\<lambda>deletions.
     let formatted = formatted @ ''\<newline>- **Additions:** '' @ py_str R additions
           @ '', **Deletions:** '' @ py_str R deletions in
     and_then (py_getitem file ''status'') (\<lambda>status.
     if status \<noteq> PStr ''removed'' then
       and_then (py_in ''patch'' file) (\<lambda>has_patch.
       if has_patch then
         and_then (py_getitem file ''patch'') (\<lambda>patch.
         Inr (formatted @ ''\<newline>\<newline>**Changes:**\<newline>```diff\<newline>'' @ py_str R patch
               @ ''\<newline>```\<newline>''))
       else Inr formatted)
     else Inr formatted)))))"

fun format_files :: "repr \<Rightarrow> string \<Rightarrow> pyval list \<Rightarrow> py_exn + string" where
  "format_files R formatted [] = Inr formatted"
| "format_files R formatted (file # files) =
     and_then (format_file R formatted file) (\<lambda>formatted. format_files R formatted files)"

text \<open>The f-string that starts the document.\<close>

definition format_head :: "repr \<Rightarrow> pyval \<Rightarrow> pyval \<Rightarrow> py_exn + string" where
  "format_head R pr files =
     and_then (py_getitem pr ''title'') (\<lambda>title.
     and_then (py_getitem pr ''user'') (\<lambda>user.
     and_then (py_getitem user ''login'') (\<lambda>login.
     and_then (py_getitem pr ''state'') (\<lambda>state.
     and_then (py_getitem pr ''created_at'') (\<lambda>created_at.
     and_then (py_getitem pr ''updated_at'') (\<lambda>updated_at.
     and_then (py_getitem pr ''body'') (\<lambda>body.
     and_then (py_len files) (\<lambda>n.
     Inr (''\<newline>## Pull Request Information\<newline>**Title:** '' @ py_str R title
          @ ''\<newline>**Author:** '' @ py_str R login
          @ ''\<newline>**State:** '' @ py_str R state
          @ ''\<newline>**Created:** '' @ py_str R created_at
          @ ''\<newline>**Updated:** '' @ py_str R updated_at
          @ ''\<newline>\<newline>**Description:**\<newline>''
          @ py_str R (py_or body (PStr ''No description provided''))
          @ ''\<newline>\<newline>## Files Changed ('' @ str_of_int (int n)
          @ '' files):\<newline>'')))))))))"

definition format_pr_for_review :: "repr \<Rightarrow> pyval \<Rightarrow> py_exn + string" where
  "format_pr_for_review R data =
     and_then (py_getitem data ''pr'') (\<lambda>pr.
     and_then (py_getitem data ''files'') (\<lambda>files.
     and_then (format_head R pr files) (\<lambda>formatted.
     and_then (py_iter files) (\<lambda>files.
     format_files R formatted files))))"

text \<open>The text that the loop appends for one file.\<close>

definition file_section :: "repr \<Rightarrow> pyval \<Rightarrow> py_exn + string" where
  "file_section R file = format_file R [] file"

text \<open>
  The fields the formatter reads. \<open>has_key v k\<close>: \<open>v\<close> is a dict that holds \<open>k\<close>.
\<close>

definition has_key :: "pyval \<Rightarrow> string \<Rightarrow> bool" where
  "has_key v k = (case py_getitem v k of Inr x \<Rightarrow> True | Inl e \<Rightarrow> False)"

definition pr_has_fields :: "pyval \<Rightarrow> bool" where
  "pr_has_fields pr =
     (has_key pr ''title''
      \<and> (case py_getitem pr ''user'' of Inr user \<Rightarrow> has_key user ''login'' | Inl e \<Rightarrow> False)
      \<and> has_key pr ''state'' \<and> has_key pr ''created_at'' \<and> has_key pr ''updated_at''
      \<and> has_key pr ''body'')"

definition file_has_fields :: "pyval \<Rightarrow> bool" where
  "file_has_fields file =
     (has_key file ''filename'' \<and> has_key file ''status'' \<and> has_key file ''additions''
      \<and> has_key file ''deletions'')"

definition has_fields :: "pyval \<Rightarrow> bool" where
  "has_fields data =
     (case py_getitem data ''pr'' of
        Inl e \<Rightarrow> False
      | Inr pr \<Rightarrow>
          (case py_getitem data ''files'' of
             Inl e \<Rightarrow> False
           | Inr files \<Rightarrow>
               pr_has_fields pr
               \<and> (case py_iter files of Inl e \<Rightarrow> False | Inr fs \<Rightarrow> list_all file_has_fields fs)))"

section \<open>The review generator\<close>

text \<open>
  The body of the \<open>try\<close> block: the call, then \<open>message.content[0].text\<close>. \<open>Inl\<close> is
  the \<open>str\<close> of an exception that leaves it; an empty content list raises
  \<open>IndexError\<close>.
\<close>

definition generate_try :: "client \<Rightarrow> completion_request \<Rightarrow> string + string" where
  "generate_try create request =
     (case create request of
        Inl e \<Rightarrow> Inl e
      | Inr content \<Rightarrow>
          (case content of
             [] \<Rightarrow> Inl ''list index out of range''
           | TextBlock t # _ \<Rightarrow> Inr t
           | OtherBlock m # _ \<Rightarrow> Inl m))"

definition review_prompt :: "string \<Rightarrow> string" where
  "review_prompt pr_text =
     ''Please review this GitHub Pull Request and provide:\<newline>\<newline>''
     @ ''1. **Summary**: A brief overview of what this PR does\<newline>''
     @ ''2. **Code Quality**: Assessment of code quality, patterns, and best practices\<newline>''
     @ ''3. **Potential Issues**: Any bugs, security concerns, or problems you identify\<newline>''
     @ ''4. **Suggestions**: Recommendations for improvements\<newline>''
     @ ''5. **Overall Assessment**: Your overall recommendation (Approve, Request Changes, Comment)\<newline>\<newline>''
     @ ''Here'' @ [CHR 0x27] @ ''s the PR data:\<newline>\<newline>''
     @ pr_text"

definition review_request :: "string \<Rightarrow> completion_request" where
  "review_request pr_text =
     \<lparr>model = ''claude-3-sonnet-20240229'', max_tokens = 4000,
      messages = [(''user'', review_prompt pr_text)]\<rparr>"

text \<open>
  \<open>generate_review\<close>: the text it returns and the completion requests it issued, in
  order.
\<close>

definition generate_review :: "reviewer \<Rightarrow> string \<Rightarrow> string \<times> completion_request list" where
  "generate_review self pr_text =
     (case client self of
        None \<Rightarrow> (''Claude API key not configured'', [])
      | Some create \<Rightarrow>
          (case generate_try create (review_request pr_text) of
             Inr text \<Rightarrow> text
           | Inl e \<Rightarrow> ''Error generating review: '' @ e,
           [review_request pr_text]))"

section \<open>A worked example\<close>

text \<open>
  A pull request titled "Fix bug" by alice with two files: one added, one removed. The
  entry of the removed file carries a patch all the same.
\<close>

definition example_pr :: pyval where
  "example_pr =
     PDict
       [(''title'', PStr ''Fix bug''), (''user'', PDict [(''login'', PStr ''alice'')]),
        (''state'', PStr ''open''), (''created_at'', PStr ''2024-01-01T00:00:00Z''),
        (''updated_at'', PStr ''2024-01-02T00:00:00Z''), (''body'', PNone)]"

definition example_files :: "pyval list" where
  "example_files =
     [PDict
        [(''filename'', PStr ''a.py''), (''status'', PStr ''added''),
         (''additions'', PInt 3), (''deletions'', PInt 0), (''patch'', PStr ''+x'')],
      PDict
        [(''filename'', PStr ''b.py''), (''status'', PStr ''removed''),
         (''additions'', PInt 0), (''deletions'', PInt 7), (''patch'', PStr ''-y'')]]"

definition example_data :: pyval where
  "example_data = PDict [(''pr'', example_pr), (''files'', PList example_files)]"

section \<open>Properties of the URL parser\<close>

subsection \<open>What the engine does on the pattern\<close>

lemma backtrack_top:
  "(\<And>k. 0 < k \<Longrightarrow> k < n \<Longrightarrow> f k = None) \<Longrightarrow> backtrack f n = (if n = 0 then None else f n)"
proof (induction n)
  case 0
  show ?case by simp
next
  case (Suc n)
  have below: "backtrack f n = None"
  proof (cases n)
    case 0
    then show ?thesis by simp
  next
    case (Suc m)
    have "backtrack f n = (if n = 0 then None else f n)"
      using Suc.prems by (intro Suc.IH) simp
    moreover have "f n = None"
      using Suc.prems [of n] Suc by simp
    ultimately show ?thesis by simp
  qed
  show ?case
    by (cases "f (Suc n)") (simp_all add: below)
qed

lemma drop_inside_takeWhile:
  assumes "k < length (takeWhile c s)"
  shows "\<exists>y ys. drop k s = y # ys \<and> c y"
proof -
  have k: "k < length s"
    using assms length_takeWhile_le [of c s] by simp
  have "s ! k = takeWhile c s ! k"
    using assms by (simp add: takeWhile_nth)
  then have "c (s ! k)"
    using assms nth_mem [OF assms] by (metis set_takeWhileD)
  moreover have "drop k s = s ! k # drop (Suc k) s"
    using k by (simp add: Cons_nth_drop_Suc)
  ultimately show ?thesis by blast
qed

lemma take_all_takeWhile: "take (length (takeWhile c s)) s = takeWhile c s"
  by (metis append_eq_conv_conj takeWhile_dropWhile_id)

lemma drop_all_takeWhile: "drop (length (takeWhile c s)) s = dropWhile c s"
  by (metis append_eq_conv_conj takeWhile_dropWhile_id)

lemma group_then_lit:
  assumes "\<not> c x"
  shows "re_match_items (Group c # Lit (x # l) # its) s =
    (if takeWhile c s = [] then None
     else map_option (\<lambda>gs. takeWhile c s # gs) (re_match_items (Lit (x # l) # its) (dropWhile c s)))"
proof -
  let ?f = "\<lambda>n. map_option (\<lambda>gs. take n s # gs) (re_match_items (Lit (x # l) # its) (drop n s))"
  have fails: "?f k = None" if inside: "k < length (takeWhile c s)" for k
  proof -
    obtain y ys where d: "drop k s = y # ys" and cy: "c y"
      using drop_inside_takeWhile [OF inside] by blast
    have "y \<noteq> x" using cy assms by auto
    then show ?thesis by (simp add: d)
  qed
  have "backtrack ?f (length (takeWhile c s)) =
      (if length (takeWhile c s) = 0 then None else ?f (length (takeWhile c s)))"
    by (rule backtrack_top) (rule fails)
  then show ?thesis
    by (simp only: re_match_items.simps take_all_takeWhile drop_all_takeWhile length_0_conv)
qed

lemma group_last:
  "re_match_items [Group c] s = (if takeWhile c s = [] then None else Some [takeWhile c s])"
proof (cases "length (takeWhile c s)")
  case 0
  then show ?thesis by simp
next
  case (Suc m)
  then have "takeWhile c s \<noteq> []" by auto
  then show ?thesis
    using Suc take_all_takeWhile [of c s] by simp
qed

lemma re_match_pattern:
  "re_match_items pattern url =
    (if take (length ''https://github.com/'') url = ''https://github.com/'' then
       (let s1 = drop (length ''https://github.com/'') url; owner = takeWhile not_slash s1; r1 = dropWhile not_slash s1 in
        if owner = [] then None
        else if take (length ''/'') r1 = ''/'' then
          (let s2 = drop (length ''/'') r1; repo = takeWhile not_slash s2; r2 = dropWhile not_slash s2 in
           if repo = [] then None
           else if take (length ''/pull/'') r2 = ''/pull/'' then
             (let number = takeWhile is_digit (drop (length ''/pull/'') r2) in
              if number = [] then None else Some [owner, repo, number])
           else None)
        else None)
     else None)"
proof -
  have ns: "\<not> not_slash CHR ''/''" by (simp add: not_slash_def)
  show ?thesis
    unfolding pattern_def
    by (simp add: group_then_lit [where c = not_slash and x = "CHR ''/''", OF ns] group_last Let_def del: re_match_items.simps(3))
qed
lemma takeWhile_stop:
  assumes "\<forall>x\<in>set xs. c x" and "\<not> c y"
  shows "takeWhile c (xs @ y # ys) = xs" and "dropWhile c (xs @ y # ys) = y # ys"
  using assms by simp_all

lemma re_match_pattern_shape:
  assumes "re_match_items pattern url = Some gs"
  shows "\<exists>owner repo number rest.
           gs = [owner, repo, number]
           \<and> url = ''https://github.com/'' @ owner @ ''/'' @ repo @ ''/pull/'' @ number @ rest
           \<and> owner \<noteq> [] \<and> CHR ''/'' \<notin> set owner \<and> repo \<noteq> [] \<and> CHR ''/'' \<notin> set repo
           \<and> number \<noteq> [] \<and> (\<forall>c\<in>set number. is_digit c)"
proof -
  let ?P = "''https://github.com/''"
  define s1 where "s1 = drop (length ?P) url"
  define r1 where "r1 = dropWhile not_slash s1"
  define s2 where "s2 = drop (length ''/'') r1"
  define r2 where "r2 = dropWhile not_slash s2"
  define s3 where "s3 = drop (length ''/pull/'') r2"
  have m: "take (length ?P) url = ?P" "takeWhile not_slash s1 \<noteq> []"
      "take (length ''/'') r1 = ''/''" "takeWhile not_slash s2 \<noteq> []"
      "take (length ''/pull/'') r2 = ''/pull/''" "takeWhile is_digit s3 \<noteq> []"
      "gs = [takeWhile not_slash s1, takeWhile not_slash s2, takeWhile is_digit s3]"
    using assms unfolding re_match_pattern Let_def s1_def r1_def s2_def r2_def s3_def
    by (simp_all split: if_splits)
  have u: "url = ?P @ s1"
    unfolding s1_def using m(1) by (metis append_take_drop_id)
  have e1: "s1 = takeWhile not_slash s1 @ r1"
    unfolding r1_def by simp
  have e2: "r1 = ''/'' @ s2"
    unfolding s2_def using m(3) by (metis append_take_drop_id)
  have e3: "s2 = takeWhile not_slash s2 @ r2"
    unfolding r2_def by simp
  have e4: "r2 = ''/pull/'' @ s3"
    unfolding s3_def using m(5) by (metis append_take_drop_id)
  have e5: "s3 = takeWhile is_digit s3 @ dropWhile is_digit s3"
    by simp
  have "url = ?P @ takeWhile not_slash s1 @ ''/'' @ takeWhile not_slash s2 @ ''/pull/''
          @ takeWhile is_digit s3 @ dropWhile is_digit s3"
    using u e1 e2 e3 e4 e5 by metis
  moreover have "CHR ''/'' \<notin> set (takeWhile not_slash s)" for s
    using set_takeWhileD [of "CHR ''/''" not_slash s] by (auto simp: not_slash_def)
  moreover have "\<forall>c\<in>set (takeWhile is_digit s3). is_digit c"
    using set_takeWhileD by fastforce
  ultimately show ?thesis
    using m(2,4,6,7) by blast
qed

subsection \<open>The captured groups\<close>

text \<open>
  C1, as the code has it: for every string that the pattern matches,
  \<open>parse_github_url\<close> returns three strings, the owner, the repository and the
  number, and the number is the non-empty run of decimal digits captured after
  \<open>/pull/\<close>; it is a string, not an integer. For
  \<open>https://github.com/octocat/Hello-World/pull/42\<close> the result is \<open>octocat\<close>,
  \<open>Hello-World\<close> and the string \<open>42\<close>.
\<close>

theorem parse_github_url_groups:
  "(re_match_items pattern url \<noteq> None \<longrightarrow>
      (\<exists>owner repo number rest.
         parse_github_url url = (PStr owner, PStr repo, PStr number)
         \<and> url = ''https://github.com/'' @ owner @ ''/'' @ repo @ ''/pull/'' @ number @ rest
         \<and> owner \<noteq> [] \<and> repo \<noteq> [] \<and> number \<noteq> [] \<and> (\<forall>c\<in>set number. is_digit c)))
   \<and> parse_github_url ''https://github.com/octocat/Hello-World/pull/42''
       = (PStr ''octocat'', PStr ''Hello-World'', PStr ''42'')"
proof (intro conjI impI)
  assume "re_match_items pattern url \<noteq> None"
  then obtain gs where gs: "re_match_items pattern url = Some gs" by blast
  from re_match_pattern_shape [OF gs] obtain owner repo number rest where
    "gs = [owner, repo, number]"
    "url = ''https://github.com/'' @ owner @ ''/'' @ repo @ ''/pull/'' @ number @ rest"
    "owner \<noteq> []" "repo \<noteq> []" "number \<noteq> []" "\<forall>c\<in>set number. is_digit c"
    by blast
  moreover from this gs have "parse_github_url url = (PStr owner, PStr repo, PStr number)"
    by (simp add: parse_github_url_def)
  ultimately show "\<exists>owner repo number rest.
         parse_github_url url = (PStr owner, PStr repo, PStr number)
         \<and> url = ''https://github.com/'' @ owner @ ''/'' @ repo @ ''/pull/'' @ number @ rest
         \<and> owner \<noteq> [] \<and> repo \<noteq> [] \<and> number \<noteq> [] \<and> (\<forall>c\<in>set number. is_digit c)"
    by blast
next
  show "parse_github_url ''https://github.com/octocat/Hello-World/pull/42''
       = (PStr ''octocat'', PStr ''Hello-World'', PStr ''42'')"
    by (simp add: parse_github_url_def pattern_def not_slash_def is_digit_def)
qed

text \<open>The theorem at the URL of the example, which the pattern matches.\<close>

theorem parse_github_url_groups_witness:
  "re_match_items pattern ''https://github.com/octocat/Hello-World/pull/42'' \<noteq> None
   \<and> (\<exists>owner repo number rest.
         parse_github_url ''https://github.com/octocat/Hello-World/pull/42''
           = (PStr owner, PStr repo, PStr number)
         \<and> ''https://github.com/octocat/Hello-World/pull/42''
           = ''https://github.com/'' @ owner @ ''/'' @ repo @ ''/pull/'' @ number @ rest
         \<and> owner \<noteq> [] \<and> repo \<noteq> [] \<and> number \<noteq> [] \<and> list_all is_digit number)"
proof -
  have m: "re_match_items pattern ''https://github.com/octocat/Hello-World/pull/42'' \<noteq> None"
    by (simp add: pattern_def not_slash_def is_digit_def)
  show ?thesis
    using m parse_github_url_groups [of "''https://github.com/octocat/Hello-World/pull/42''"]
    unfolding list_all_iff by blast
qed

text \<open>
  C1 as stated asks for the integer 42. The third component is the string \<open>42\<close>,
  which is a different value.
\<close>

theorem parse_github_url_number_not_int:
  "snd (snd (parse_github_url ''https://github.com/octocat/Hello-World/pull/42'')) = PStr ''42''
   \<and> snd (snd (parse_github_url ''https://github.com/octocat/Hello-World/pull/42'')) \<noteq> PInt 42"
  by (simp add: parse_github_url_def pattern_def not_slash_def is_digit_def)

subsection \<open>Text after the number\<close>

text \<open>
  C10: a string that begins with a well-formed PR URL is accepted, whatever follows.
  The owner and the repository are the two path segments, and the number is the
  leading run of digits after \<open>/pull/\<close>: the digits \<open>ds\<close> and any digits that follow
  them directly. Everything after that run is ignored.
\<close>

theorem parse_github_url_trailing:
  assumes "owner \<noteq> []" and "CHR ''/'' \<notin> set owner"
    and "repo \<noteq> []" and "CHR ''/'' \<notin> set repo"
    and "ds \<noteq> []" and "\<forall>c\<in>set ds. is_digit c"
  shows "parse_github_url
           (''https://github.com/'' @ owner @ ''/'' @ repo @ ''/pull/'' @ ds @ rest)
         = (PStr owner, PStr repo, PStr (ds @ takeWhile is_digit rest))"
proof -
  have o: "\<forall>x\<in>set owner. not_slash x" and r: "\<forall>x\<in>set repo. not_slash x"
    using assms by (auto simp: not_slash_def)
  have ns: "\<not> not_slash CHR ''/''" by (simp add: not_slash_def)
  have tw_o: "takeWhile not_slash (owner @ CHR ''/'' # t) = owner"
    and dw_o: "dropWhile not_slash (owner @ CHR ''/'' # t) = CHR ''/'' # t" for t
    using takeWhile_stop [OF o ns] by simp_all
  have tw_r: "takeWhile not_slash (repo @ CHR ''/'' # t) = repo"
    and dw_r: "dropWhile not_slash (repo @ CHR ''/'' # t) = CHR ''/'' # t" for t
    using takeWhile_stop [OF r ns] by simp_all
  have tw_d: "takeWhile is_digit (ds @ rest) = ds @ takeWhile is_digit rest"
    using assms by simp
  show ?thesis
    using assms
    by (simp add: parse_github_url_def re_match_pattern Let_def tw_o dw_o tw_r dw_r tw_d)
qed

text \<open>The three URLs of the claim: a path, a query string and letters after the number.\<close>

theorem parse_github_url_trailing_witness:
  "parse_github_url ''https://github.com/o/r/pull/123/files'' = (PStr ''o'', PStr ''r'', PStr ''123'')
   \<and> parse_github_url ''https://github.com/o/r/pull/123?tab=x'' = (PStr ''o'', PStr ''r'', PStr ''123'')
   \<and> parse_github_url ''https://github.com/o/r/pull/123abc'' = (PStr ''o'', PStr ''r'', PStr ''123'')"
  using parse_github_url_trailing [of "''o''" "''r''" "''123''" "''/files''"]
    parse_github_url_trailing [of "''o''" "''r''" "''123''" "''?tab=x''"]
    parse_github_url_trailing [of "''o''" "''r''" "''123''" "''abc''"]
  by (simp add: is_digit_def)

section \<open>Properties of the PR data fetcher\<close>

lemma str_of_int_404: "str_of_int 404 = ''404''"
  by (simp add: str_of_int_def digits_of_nat.simps digit_char_def)

lemma fetch_try_cases:
  assumes "get w (pr_url owner repo n) (request_headers self) = (o1, w1)"
    and "get w1 (files_url owner repo n) (request_headers self) = (o2, w2)"
  shows "fetch_pr_data get self owner repo n w =
    (case o1 of
       Inl e \<Rightarrow> ((PNone, PStr (''Error: '' @ e)), w1)
     | Inr r1 \<Rightarrow>
        (case o2 of
           Inl e \<Rightarrow> ((PNone, PStr (''Error: '' @ e)), w2)
         | Inr r2 \<Rightarrow>
            (if status_code r1 \<noteq> 200 then
               (PNone, PStr (''Error fetching PR: '' @ str_of_int (status_code r1)))
             else if status_code r2 \<noteq> 200 then
               (PNone, PStr (''Error fetching PR files: '' @ str_of_int (status_code r2)))
             else
               (case json r1 of
                  Inl e \<Rightarrow> (PNone, PStr (''Error: '' @ e))
                | Inr d1 \<Rightarrow>
                   (case json r2 of
                      Inl e \<Rightarrow> (PNone, PStr (''Error: '' @ e))
                    | Inr d2 \<Rightarrow> (PDict [(''pr'', d1), (''files'', d2)], PNone))),
             w2)))"
  using assms
  by (simp add: fetch_pr_data_def fetch_try_def split: sum.splits)

text \<open>
  C2, as the code has it: \<open>fetch_pr_data\<close> returns an error exactly when one of the
  two GET calls raises, returns a status other than 200, or returns a body that does
  not decode. When both calls return status 200 with a body that decodes, it returns
  the two decoded bodies as the data and no error.
\<close>

theorem fetch_pr_data_error_iff:
  assumes "get w (pr_url owner repo n) (request_headers self) = (o1, w1)"
    and "get w1 (files_url owner repo n) (request_headers self) = (o2, w2)"
  shows "((\<exists>msg. fst (fetch_pr_data get self owner repo n w) = (PNone, PStr msg))
           \<longleftrightarrow> \<not> (fetched_ok o1 \<and> fetched_ok o2))
         \<and> (fetched_ok o1 \<and> fetched_ok o2 \<longrightarrow>
              (\<exists>r1 r2 d1 d2. o1 = Inr r1 \<and> o2 = Inr r2 \<and> json r1 = Inr d1 \<and> json r2 = Inr d2
                 \<and> fst (fetch_pr_data get self owner repo n w)
                     = (PDict [(''pr'', d1), (''files'', d2)], PNone)))"
proof -
  note c = fetch_try_cases [of get w owner repo n self o1 w1 o2 w2, OF assms]
  show ?thesis
    unfolding c fetched_ok_def by (auto split: sum.splits)
qed

text \<open>Both calls answer 200 with a body that decodes.\<close>

theorem fetch_pr_data_error_iff_witness:
  "fetched_ok (Inr \<lparr>status_code = 200, json = Inr (PDict [])\<rparr>)
   \<and> fst (fetch_pr_data (\<lambda>w url headers. (Inr \<lparr>status_code = 200, json = Inr (PDict [])\<rparr>, w))
          \<lparr>github_token = Some ''t'', anthropic_api_key = None, client = None\<rparr>
          ''o'' ''r'' ''1'' ())
       = (PDict [(''pr'', PDict []), (''files'', PDict [])], PNone)"
  using fetch_pr_data_error_iff
    [of "\<lambda>w url headers. (Inr \<lparr>status_code = 200, json = Inr (PDict [])\<rparr>, w)" "()"
        "''o''" "''r''" "''1''" "\<lparr>github_token = Some ''t'', anthropic_api_key = None, client = None\<rparr>"
        "Inr \<lparr>status_code = 200, json = Inr (PDict [])\<rparr>" "()"
        "Inr \<lparr>status_code = 200, json = Inr (PDict [])\<rparr>" "()"]
  by (simp add: fetched_ok_def)

text \<open>
  C2 as stated takes every 2xx status for a success. Both calls answer 202 with a
  body that decodes, and the fetcher returns an error.
\<close>

theorem fetch_pr_data_202:
  "fst (fetch_pr_data (\<lambda>w url headers. (Inr \<lparr>status_code = 202, json = Inr (PDict [])\<rparr>, w))
          \<lparr>github_token = Some ''t'', anthropic_api_key = None, client = None\<rparr>
          ''o'' ''r'' ''1'' ())
     = (PNone, PStr ''Error fetching PR: 202'')"
  by (simp add: fetch_pr_data_def fetch_try_def str_of_int_def digits_of_nat.simps digit_char_def)

text \<open>
  C4, as the code has it: when the metadata call returns status 404, \<open>fetch_pr_data\<close>
  returns an error and no data; when the files call returns a response as well, the
  message is \<open>Error fetching PR: 404\<close>, which contains \<open>404\<close>.
\<close>

theorem fetch_pr_data_404:
  assumes "get w (pr_url owner repo n) (request_headers self) = (Inr r1, w1)"
    and "status_code r1 = 404"
    and "get w1 (files_url owner repo n) (request_headers self) = (o2, w2)"
  shows "(\<exists>msg. fst (fetch_pr_data get self owner repo n w) = (PNone, PStr msg))
         \<and> (\<forall>r2. o2 = Inr r2 \<longrightarrow>
               fst (fetch_pr_data get self owner repo n w) = (PNone, PStr ''Error fetching PR: 404'')
               \<and> sublist ''404'' ''Error fetching PR: 404'')"
proof -
  have s: "sublist ''404'' (''Error fetching PR: '' @ ''404'' @ [])"
    by (rule sublist_appendI)
  note c = fetch_try_cases [of get w owner repo n self "Inr r1" w1 o2 w2, OF assms(1,3)]
  show ?thesis
    unfolding c using assms(2) s by (auto simp: str_of_int_404 split: sum.splits)
qed

text \<open>The metadata call answers 404 and the files call answers 200.\<close>

theorem fetch_pr_data_404_witness:
  "fst (fetch_pr_data
          (\<lambda>w url headers.
             if w = (0::nat) then (Inr \<lparr>status_code = 404, json = Inl ''no body''\<rparr>, 1)
             else (Inr \<lparr>status_code = 200, json = Inr (PList [])\<rparr>, 2))
          \<lparr>github_token = Some ''t'', anthropic_api_key = None, client = None\<rparr>
          ''o'' ''r'' ''1'' 0)
     = (PNone, PStr ''Error fetching PR: 404'')
   \<and> sublist ''404'' ''Error fetching PR: 404''"
  using fetch_pr_data_404
    [of "\<lambda>w url headers.
             if w = (0::nat) then (Inr \<lparr>status_code = 404, json = Inl ''no body''\<rparr>, 1)
             else (Inr \<lparr>status_code = 200, json = Inr (PList [])\<rparr>, 2)"
        0 "''o''" "''r''" "''1''"
        "\<lparr>github_token = Some ''t'', anthropic_api_key = None, client = None\<rparr>"
        "\<lparr>status_code = 404, json = Inl ''no body''\<rparr>" 1
        "Inr \<lparr>status_code = 200, json = Inr (PList [])\<rparr>" 2]
  by simp

text \<open>
  C4 as stated holds for every outcome of the files call. Both requests are issued
  before either status is read: the metadata call answers 404, the files call raises
  a timeout, and the message is that of the timeout.
\<close>

theorem fetch_pr_data_404_then_timeout:
  "fst (fetch_pr_data
          (\<lambda>w url headers.
             if w = (0::nat) then (Inr \<lparr>status_code = 404, json = Inl ''no body''\<rparr>, 1)
             else (Inl ''timed out'', 2))
          \<lparr>github_token = Some ''t'', anthropic_api_key = None, client = None\<rparr>
          ''o'' ''r'' ''1'' 0)
     = (PNone, PStr ''Error: timed out'')
   \<and> \<not> sublist ''404'' ''Error: timed out''"
  by (simp add: fetch_pr_data_def fetch_try_def sublist_Cons_right prefix_Cons)

text \<open>
  C9: \<open>fetch_pr_data\<close> returns either no data and an error message, or the data and
  no error; never both, never neither.
\<close>

theorem fetch_pr_data_one_of_two:
  "(\<exists>msg. fst (fetch_pr_data get self owner repo n w) = (PNone, PStr msg) \<and> msg \<noteq> [])
   \<or> (\<exists>pr_data files_data.
         fst (fetch_pr_data get self owner repo n w)
           = (PDict [(''pr'', pr_data), (''files'', files_data)], PNone))"
proof -
  obtain o1 w1 where g1: "get w (pr_url owner repo n) (request_headers self) = (o1, w1)"
    by (cases "get w (pr_url owner repo n) (request_headers self)") auto
  obtain o2 w2 where g2: "get w1 (files_url owner repo n) (request_headers self) = (o2, w2)"
    by (cases "get w1 (files_url owner repo n) (request_headers self)") auto
  note c = fetch_try_cases [of get w owner repo n self o1 w1 o2 w2, OF g1 g2]
  show ?thesis
    unfolding c by (auto split: sum.splits)
qed

section \<open>Properties of the prompt formatter\<close>

subsection \<open>The layout of the document\<close>

lemma and_then_Inr_iff:
  "and_then m f = Inr y \<longleftrightarrow> (\<exists>x. m = Inr x \<and> f x = Inr y)"
  by (cases m) (simp_all add: and_then_def)

lemma and_then_simps [simp]:
  "and_then (Inl e) f = Inl e" "and_then (Inr x) f = f x"
  by (simp_all add: and_then_def)

lemma py_in_patch:
  assumes "py_getitem file k = Inr v"
  shows "\<exists>b. py_in ''patch'' file = Inr b \<and> (b \<longrightarrow> (\<exists>p. py_getitem file ''patch'' = Inr p))"
proof (cases "file")
  case (PDict kvs)
  have "''patch'' \<in> fst ` set kvs \<longleftrightarrow> (\<exists>p. map_of kvs ''patch'' = Some p)"
    using map_of_eq_None_iff [of kvs "''patch''"] by auto
  then show ?thesis
    using PDict by auto
qed (use assms in simp_all)

lemma format_file_acc:
  "format_file R formatted file = and_then (file_section R file) (\<lambda>s. Inr (formatted @ s))"
  unfolding format_file_def file_section_def Let_def and_then_def
  by (simp split: sum.splits)

lemma file_section_total:
  "(\<exists>s. file_section R file = Inr s) \<longleftrightarrow> file_has_fields file"
proof
  assume "\<exists>s. file_section R file = Inr s"
  then show "file_has_fields file"
    unfolding file_section_def format_file_def file_has_fields_def has_key_def Let_def
    by (auto simp: and_then_Inr_iff)
next
  assume "file_has_fields file"
  then obtain name status adds dels where
    f: "py_getitem file ''filename'' = Inr name" "py_getitem file ''status'' = Inr status"
       "py_getitem file ''additions'' = Inr adds" "py_getitem file ''deletions'' = Inr dels"
    unfolding file_has_fields_def has_key_def by (auto split: sum.splits)
  obtain b where b: "py_in ''patch'' file = Inr b"
      "b \<longrightarrow> (\<exists>p. py_getitem file ''patch'' = Inr p)"
    using py_in_patch [OF f(1)] by blast
  show "\<exists>s. file_section R file = Inr s"
    unfolding file_section_def format_file_def Let_def
    using f b by auto
qed

lemma format_files_sections:
  "format_files R formatted fs = Inr out \<longleftrightarrow>
     (\<exists>sections. map (file_section R) fs = map Inr sections \<and> out = formatted @ concat sections)"
proof (induction fs arbitrary: formatted)
  case Nil
  show ?case by auto
next
  case (Cons f fs)
  show ?case
  proof (cases "file_section R f")
    case (Inl e)
    then show ?thesis
      by (auto simp: format_file_acc map_eq_Cons_conv)
  next
    case (Inr s)
    have "format_files R formatted (f # fs) = format_files R (formatted @ s) fs"
      by (simp add: format_file_acc Inr)
    also have "\<dots> = Inr out \<longleftrightarrow>
        (\<exists>sections. map (file_section R) fs = map Inr sections \<and> out = (formatted @ s) @ concat sections)"
      by (rule Cons.IH)
    also have "\<dots> \<longleftrightarrow>
        (\<exists>sections. map (file_section R) (f # fs) = map Inr sections \<and> out = formatted @ concat sections)"
    proof
      assume "\<exists>sections. map (file_section R) fs = map Inr sections \<and> out = (formatted @ s) @ concat sections"
      then obtain ss where "map (file_section R) fs = map Inr ss" "out = (formatted @ s) @ concat ss"
        by blast
      then have "map (file_section R) (f # fs) = map Inr (s # ss) \<and> out = formatted @ concat (s # ss)"
        using Inr by simp
      then show "\<exists>sections. map (file_section R) (f # fs) = map Inr sections \<and> out = formatted @ concat sections"
        by blast
    next
      assume "\<exists>sections. map (file_section R) (f # fs) = map Inr sections \<and> out = formatted @ concat sections"
      then obtain ss where ss: "map (file_section R) (f # fs) = map Inr ss" "out = formatted @ concat ss"
        by blast
      then obtain t ts where "ss = t # ts" by (cases ss) auto
      with ss Inr have "map (file_section R) fs = map Inr ts \<and> out = (formatted @ s) @ concat ts"
        by auto
      then show "\<exists>sections. map (file_section R) fs = map Inr sections \<and> out = (formatted @ s) @ concat sections"
        by blast
    qed
    finally show ?thesis .
  qed
qed

lemma sections_total:
  "(\<exists>sections. map (file_section R) fs = map Inr sections) \<longleftrightarrow> list_all file_has_fields fs"
proof (induction fs)
  case Nil
  show ?case by simp
next
  case (Cons f fs)
  have "(\<exists>sections. map (file_section R) (f # fs) = map Inr sections) \<longleftrightarrow>
        (\<exists>s. file_section R f = Inr s) \<and> (\<exists>ss. map (file_section R) fs = map Inr ss)"
  proof
    assume "\<exists>sections. map (file_section R) (f # fs) = map Inr sections"
    then obtain ss where ss: "map (file_section R) (f # fs) = map Inr ss" by blast
    then obtain t ts where "ss = t # ts" by (cases ss) auto
    with ss show "(\<exists>s. file_section R f = Inr s) \<and> (\<exists>ss. map (file_section R) fs = map Inr ss)"
      by auto
  next
    assume "(\<exists>s. file_section R f = Inr s) \<and> (\<exists>ss. map (file_section R) fs = map Inr ss)"
    then obtain s ss where "file_section R f = Inr s" "map (file_section R) fs = map Inr ss"
      by blast
    then have "map (file_section R) (f # fs) = map Inr (s # ss)" by simp
    then show "\<exists>sections. map (file_section R) (f # fs) = map Inr sections" by blast
  qed
  then show ?case
    using Cons.IH by (simp add: file_section_total)
qed

lemma py_len_iter: "(\<exists>n. py_len files = Inr n) \<longleftrightarrow> (\<exists>fs. py_iter files = Inr fs)"
  by (cases files) simp_all

lemma format_head_total:
  "(\<exists>h. format_head R pr files = Inr h) \<longleftrightarrow> pr_has_fields pr \<and> (\<exists>n. py_len files = Inr n)"
  unfolding format_head_def pr_has_fields_def has_key_def
  by (auto simp: and_then_Inr_iff split: sum.splits)

lemma format_pr_for_review_layout:
  "format_pr_for_review R data = Inr out \<longleftrightarrow>
     (\<exists>pr files head fs sections.
        py_getitem data ''pr'' = Inr pr \<and> py_getitem data ''files'' = Inr files
        \<and> format_head R pr files = Inr head \<and> py_iter files = Inr fs
        \<and> map (file_section R) fs = map Inr sections \<and> out = head @ concat sections)"
  unfolding format_pr_for_review_def
  by (simp add: and_then_Inr_iff format_files_sections)

lemma format_total_iff:
  "(\<exists>out. format_pr_for_review R data = Inr out) \<longleftrightarrow> has_fields data"
proof
  assume "\<exists>out. format_pr_for_review R data = Inr out"
  then obtain pr files head fs sections where
    l: "py_getitem data ''pr'' = Inr pr" "py_getitem data ''files'' = Inr files"
       "format_head R pr files = Inr head" "py_iter files = Inr fs"
       "map (file_section R) fs = map Inr sections"
    unfolding format_pr_for_review_layout by blast
  have "pr_has_fields pr" using l(3) format_head_total by blast
  moreover have "list_all file_has_fields fs" using l(5) sections_total by blast
  ultimately show "has_fields data"
    using l by (simp add: has_fields_def)
next
  assume h: "has_fields data"
  then obtain pr files fs where
    l: "py_getitem data ''pr'' = Inr pr" "py_getitem data ''files'' = Inr files"
       "pr_has_fields pr" "py_iter files = Inr fs" "list_all file_has_fields fs"
    unfolding has_fields_def by (auto split: sum.splits)
  obtain head where "format_head R pr files = Inr head"
    using l(3,4) format_head_total py_len_iter by blast
  moreover obtain sections where "map (file_section R) fs = map Inr sections"
    using l(5) sections_total by blast
  ultimately show "\<exists>out. format_pr_for_review R data = Inr out"
    unfolding format_pr_for_review_layout using l by blast
qed

lemma file_section_removed:
  assumes "py_getitem f ''status'' = Inr (PStr ''removed'')" and "file_section R f = Inr s"
  shows "\<exists>name adds dels.
           py_getitem f ''filename'' = Inr name \<and> py_getitem f ''additions'' = Inr adds
           \<and> py_getitem f ''deletions'' = Inr dels
           \<and> s = ''\<newline>### '' @ py_str R name @ ''\<newline>- **Status:** removed''
                 @ ''\<newline>- **Additions:** '' @ py_str R adds @ '', **Deletions:** '' @ py_str R dels"
  using assms unfolding file_section_def format_file_def Let_def
  by (auto simp: and_then_Inr_iff)

lemma file_section_starts:
  assumes "file_section R f = Inr s"
  shows "\<exists>name rest. py_getitem f ''filename'' = Inr name \<and> s = ''\<newline>### '' @ py_str R name @ rest"
  using assms unfolding file_section_def format_file_def Let_def
  by (auto simp: and_then_Inr_iff split: if_splits)

lemma sections_nth:
  assumes "map (file_section R) fs = map Inr sections" and "i < length fs"
  shows "file_section R (fs ! i) = Inr (sections ! i)" and "length sections = length fs"
proof -
  show l: "length sections = length fs"
    using assms(1) by (metis length_map)
  have "map (file_section R) fs ! i = map Inr sections ! i"
    using assms(1) by simp
  then show "file_section R (fs ! i) = Inr (sections ! i)"
    using assms(2) l by simp
qed

lemma format_with_fields:
  assumes "has_fields data"
    and "py_getitem data ''pr'' = Inr pr"
    and "py_getitem data ''files'' = Inr files" and "py_iter files = Inr fs"
  shows "\<exists>head sections.
           format_pr_for_review R data = Inr (head @ concat sections)
           \<and> format_head R pr files = Inr head
           \<and> map (file_section R) fs = map Inr sections"
proof -
  obtain out where "format_pr_for_review R data = Inr out"
    using assms(1) format_total_iff by blast
  then show ?thesis
    unfolding format_pr_for_review_layout using assms(2-4) by auto
qed

lemma format_head_placeholder:
  assumes "format_head R pr files = Inr head"
    and "py_getitem pr ''body'' = Inr body" and "\<not> py_truthy body"
  shows "\<exists>a b. head = a @ ''No description provided'' @ b"
proof -
  define A where "A = (\<lambda>title login state created_at updated_at.
      ''\<newline>## Pull Request Information\<newline>**Title:** '' @ py_str R title
      @ ''\<newline>**Author:** '' @ py_str R login
      @ ''\<newline>**State:** '' @ py_str R state
      @ ''\<newline>**Created:** '' @ py_str R created_at
      @ ''\<newline>**Updated:** '' @ py_str R updated_at
      @ ''\<newline>\<newline>**Description:**\<newline>'')"
  define B where "B = (\<lambda>n. ''\<newline>\<newline>## Files Changed ('' @ str_of_int (int n) @ '' files):\<newline>'')"
  define D where "D = (\<lambda>body. py_str R (py_or body (PStr ''No description provided'')))"
  have fh: "format_head R pr files =
     and_then (py_getitem pr ''title'') (\<lambda>title.
     and_then (py_getitem pr ''user'') (\<lambda>user.
     and_then (py_getitem user ''login'') (\<lambda>login.
     and_then (py_getitem pr ''state'') (\<lambda>state.
     and_then (py_getitem pr ''created_at'') (\<lambda>created_at.
     and_then (py_getitem pr ''updated_at'') (\<lambda>updated_at.
     and_then (py_getitem pr ''body'') (\<lambda>body.
     and_then (py_len files) (\<lambda>n.
     Inr (A title login state created_at updated_at @ D body @ B n)))))))))"
    unfolding format_head_def A_def B_def D_def by simp
  have p: "D body = ''No description provided''"
    using assms(3) by (simp add: D_def py_or_def)
  obtain title login state created_at updated_at n where
    "head = A title login state created_at updated_at @ D body @ B n"
    using assms(1,2) unfolding fh and_then_Inr_iff by auto
  then show ?thesis
    unfolding p by blast
qed

subsection \<open>The example has every field\<close>

lemma has_fields_example: "has_fields example_data"
  by (simp add: example_data_def example_pr_def example_files_def has_fields_def
      pr_has_fields_def file_has_fields_def has_key_def)

lemma example_parts:
  "py_getitem example_data ''pr'' = Inr example_pr"
  "py_getitem example_data ''files'' = Inr (PList example_files)"
  "py_iter (PList example_files) = Inr example_files"
  by (simp_all add: example_data_def)

subsection \<open>Removed files\<close>

text \<open>
  C5: on an input that has the fields the formatter reads, the document is the head
  followed by one section per file, and the section of a file whose status is
  \<open>removed\<close> is exactly its three lines of name, status and counts, whether or not
  the entry carries a patch. No diff block is written for it: a backquote occurs in
  the section only if the name or a count contains one.
\<close>

theorem removed_file_has_no_diff_block:
  assumes "has_fields data"
    and "py_getitem data ''pr'' = Inr pr"
    and "py_getitem data ''files'' = Inr files" and "py_iter files = Inr fs"
  shows "\<exists>head sections.
           format_pr_for_review R data = Inr (head @ concat sections)
           \<and> format_head R pr files = Inr head
           \<and> map (file_section R) fs = map Inr sections
           \<and> (\<forall>i<length fs. py_getitem (fs ! i) ''status'' = Inr (PStr ''removed'') \<longrightarrow>
                (\<exists>name adds dels.
                   py_getitem (fs ! i) ''filename'' = Inr name
                   \<and> py_getitem (fs ! i) ''additions'' = Inr adds
                   \<and> py_getitem (fs ! i) ''deletions'' = Inr dels
                   \<and> sections ! i =
                       ''\<newline>### '' @ py_str R name @ ''\<newline>- **Status:** removed''
                       @ ''\<newline>- **Additions:** '' @ py_str R adds
                       @ '', **Deletions:** '' @ py_str R dels
                   \<and> (CHR 0x60 \<in> set (sections ! i)
                        \<longrightarrow> CHR 0x60 \<in> set (py_str R name @ py_str R adds @ py_str R dels))))"
proof -
  obtain head sections where
    l: "format_pr_for_review R data = Inr (head @ concat sections)"
       "format_head R pr files = Inr head"
       "map (file_section R) fs = map Inr sections"
    using format_with_fields [OF assms] by blast
  have "\<exists>name adds dels.
          py_getitem (fs ! i) ''filename'' = Inr name
          \<and> py_getitem (fs ! i) ''additions'' = Inr adds
          \<and> py_getitem (fs ! i) ''deletions'' = Inr dels
          \<and> sections ! i =
              ''\<newline>### '' @ py_str R name @ ''\<newline>- **Status:** removed''
              @ ''\<newline>- **Additions:** '' @ py_str R adds
              @ '', **Deletions:** '' @ py_str R dels
          \<and> (CHR 0x60 \<in> set (sections ! i)
               \<longrightarrow> CHR 0x60 \<in> set (py_str R name @ py_str R adds @ py_str R dels))"
    if i: "i < length fs" and r: "py_getitem (fs ! i) ''status'' = Inr (PStr ''removed'')" for i
  proof -
    obtain name adds dels where
      s: "py_getitem (fs ! i) ''filename'' = Inr name"
         "py_getitem (fs ! i) ''additions'' = Inr adds"
         "py_getitem (fs ! i) ''deletions'' = Inr dels"
         "sections ! i =
              ''\<newline>### '' @ py_str R name @ ''\<newline>- **Status:** removed''
              @ ''\<newline>- **Additions:** '' @ py_str R adds
              @ '', **Deletions:** '' @ py_str R dels"
      using file_section_removed [OF r sections_nth(1) [OF l(3) i]] by blast
    have "CHR 0x60 \<in> set (sections ! i)
          \<longrightarrow> CHR 0x60 \<in> set (py_str R name @ py_str R adds @ py_str R dels)"
      unfolding s(4) by auto
    with s show ?thesis by blast
  qed
  with l show ?thesis by blast
qed

text \<open>The second file of the example is removed and carries a patch.\<close>

theorem removed_file_has_no_diff_block_witness:
  "has_fields example_data
   \<and> (\<exists>head sections.
         format_pr_for_review (\<lambda>v. []) example_data = Inr (head @ concat sections)
         \<and> map (file_section (\<lambda>v. [])) example_files = map Inr sections
         \<and> py_in ''patch'' (example_files ! 1) = Inr True
         \<and> sections ! 1
             = ''\<newline>### b.py\<newline>- **Status:** removed\<newline>- **Additions:** 0, **Deletions:** 7'')"
proof -
  obtain head sections where
    l: "format_pr_for_review (\<lambda>v. []) example_data = Inr (head @ concat sections)"
       "map (file_section (\<lambda>v. [])) example_files = map Inr sections"
    and a: "\<forall>i<length example_files.
         py_getitem (example_files ! i) ''status'' = Inr (PStr ''removed'') \<longrightarrow>
           (\<exists>name adds dels.
              py_getitem (example_files ! i) ''filename'' = Inr name
              \<and> py_getitem (example_files ! i) ''additions'' = Inr adds
              \<and> py_getitem (example_files ! i) ''deletions'' = Inr dels
              \<and> sections ! i =
                  ''\<newline>### '' @ py_str (\<lambda>v. []) name @ ''\<newline>- **Status:** removed''
                  @ ''\<newline>- **Additions:** '' @ py_str (\<lambda>v. []) adds
                  @ '', **Deletions:** '' @ py_str (\<lambda>v. []) dels
              \<and> (CHR 0x60 \<in> set (sections ! i)
                   \<longrightarrow> CHR 0x60 \<in> set (py_str (\<lambda>v. []) name @ py_str (\<lambda>v. []) adds
                          @ py_str (\<lambda>v. []) dels)))"
    using removed_file_has_no_diff_block [OF has_fields_example example_parts, of "\<lambda>v. []"]
    by blast
  have "sections ! 1
      = ''\<newline>### b.py\<newline>- **Status:** removed\<newline>- **Additions:** 0, **Deletions:** 7''"
    using a [rule_format, of 1]
    by (auto simp: example_files_def str_of_int_def digits_of_nat.simps digit_char_def)
  moreover have "py_in ''patch'' (example_files ! 1) = Inr True"
    by (simp add: example_files_def)
  ultimately show ?thesis
    using has_fields_example l by blast
qed

subsection \<open>The order of the files\<close>

text \<open>
  C8: on an input that has the fields the formatter reads, the document is the head
  followed by the sections of the files in the order of the input, and the section of
  the \<open>i\<close>-th file begins with the heading that names the \<open>i\<close>-th file. Nothing is
  sorted or moved.
\<close>

theorem filenames_in_input_order:
  assumes "has_fields data"
    and "py_getitem data ''pr'' = Inr pr"
    and "py_getitem data ''files'' = Inr files" and "py_iter files = Inr fs"
  shows "\<exists>head sections.
           format_pr_for_review R data = Inr (head @ concat sections)
           \<and> format_head R pr files = Inr head
           \<and> length sections = length fs
           \<and> (\<forall>i<length fs.
                file_section R (fs ! i) = Inr (sections ! i)
                \<and> (\<exists>name rest. py_getitem (fs ! i) ''filename'' = Inr name
                      \<and> sections ! i = ''\<newline>### '' @ py_str R name @ rest))"
proof -
  obtain head sections where
    l: "format_pr_for_review R data = Inr (head @ concat sections)"
       "format_head R pr files = Inr head"
       "map (file_section R) fs = map Inr sections"
    using format_with_fields [OF assms] by blast
  have n: "length sections = length fs"
    using l(3) by (metis length_map)
  have "file_section R (fs ! i) = Inr (sections ! i)
        \<and> (\<exists>name rest. py_getitem (fs ! i) ''filename'' = Inr name
              \<and> sections ! i = ''\<newline>### '' @ py_str R name @ rest)"
    if i: "i < length fs" for i
    using sections_nth(1) [OF l(3) i] file_section_starts by blast
  with l n show ?thesis by blast
qed

text \<open>The two files of the example, in their order.\<close>

theorem filenames_in_input_order_witness:
  "has_fields example_data
   \<and> (\<exists>head sections rest0 rest1.
         format_pr_for_review (\<lambda>v. []) example_data = Inr (head @ concat sections)
         \<and> length sections = 2
         \<and> sections ! 0 = ''\<newline>### a.py'' @ rest0
         \<and> sections ! 1 = ''\<newline>### b.py'' @ rest1)"
proof -
  obtain head sections where
    l: "format_pr_for_review (\<lambda>v. []) example_data = Inr (head @ concat sections)"
       "length sections = length example_files"
    and a: "\<forall>i<length example_files.
         file_section (\<lambda>v. []) (example_files ! i) = Inr (sections ! i)
         \<and> (\<exists>name rest. py_getitem (example_files ! i) ''filename'' = Inr name
               \<and> sections ! i = ''\<newline>### '' @ py_str (\<lambda>v. []) name @ rest)"
    using filenames_in_input_order [OF has_fields_example example_parts, of "\<lambda>v. []"]
    by blast
  have "\<exists>rest. sections ! 0 = ''\<newline>### a.py'' @ rest"
    using a [rule_format, of 0] by (auto simp: example_files_def)
  moreover have "\<exists>rest. sections ! 1 = ''\<newline>### b.py'' @ rest"
    using a [rule_format, of 1] by (auto simp: example_files_def)
  moreover have "length sections = 2"
    using l(2) by (simp add: example_files_def)
  ultimately show ?thesis
    using has_fields_example l(1) by blast
qed

subsection \<open>A pull request without a description\<close>

text \<open>
  C6: on an input that has the fields the formatter reads and whose body is \<open>None\<close>
  or the empty string, the document contains \<open>No description provided\<close>.
\<close>

theorem empty_body_placeholder:
  assumes "has_fields data"
    and "py_getitem data ''pr'' = Inr pr"
    and "py_getitem pr ''body'' = Inr body" and "body = PNone \<or> body = PStr []"
  shows "\<exists>out. format_pr_for_review R data = Inr out \<and> sublist ''No description provided'' out"
proof -
  obtain out where out: "format_pr_for_review R data = Inr out"
    using assms(1) format_total_iff by blast
  then obtain files head sections where
    l: "format_head R pr files = Inr head" "out = head @ concat sections"
    unfolding format_pr_for_review_layout using assms(2) by auto
  have "\<not> py_truthy body" using assms(4) by auto
  then obtain a b where "head = a @ ''No description provided'' @ b"
    using format_head_placeholder [OF l(1) assms(3)] by blast
  then have "out = a @ ''No description provided'' @ (b @ concat sections)"
    using l(2) by simp
  then have "sublist ''No description provided'' out"
    unfolding sublist_def by blast
  with out show ?thesis by blast
qed

text \<open>The body of the example is \<open>None\<close>.\<close>

theorem empty_body_placeholder_witness:
  "has_fields example_data
   \<and> py_getitem example_pr ''body'' = Inr PNone
   \<and> (\<exists>out. format_pr_for_review (\<lambda>v. []) example_data = Inr out
          \<and> sublist ''No description provided'' out)"
proof -
  have b: "py_getitem example_pr ''body'' = Inr PNone"
    by (simp add: example_pr_def)
  show ?thesis
    using has_fields_example b
      empty_body_placeholder [OF has_fields_example example_parts(1) b, of "\<lambda>v. []"]
    by simp
qed

section \<open>Properties of the review generator\<close>

text \<open>
  C7: without a client, \<open>generate_review\<close> returns the fixed message and issues no
  completion request, whatever the document; and there is no client when the API key
  is unset or empty.
\<close>

theorem generate_review_not_configured:
  "(client self = None \<longrightarrow>
      generate_review self pr_text = (''Claude API key not configured'', []))
   \<and> (getenv ''ANTHROPIC_API_KEY'' = None \<or> getenv ''ANTHROPIC_API_KEY'' = Some [] \<longrightarrow>
        generate_review (reviewer_init Anthropic getenv) pr_text
          = (''Claude API key not configured'', []))"
  by (auto simp: generate_review_def reviewer_init_def Let_def)

text \<open>An environment without the key, and one where the key is empty.\<close>

theorem generate_review_not_configured_witness:
  "generate_review (reviewer_init (\<lambda>key request. Inr [TextBlock ''ok'']) (\<lambda>name. None)) ''doc''
     = (''Claude API key not configured'', [])
   \<and> generate_review
        (reviewer_init (\<lambda>key request. Inr [TextBlock ''ok''])
           (\<lambda>name. if name = ''ANTHROPIC_API_KEY'' then Some [] else Some ''t''))
        ''doc''
     = (''Claude API key not configured'', [])"
proof -
  note a = generate_review_not_configured
      [where self = "reviewer_init (\<lambda>key request. Inr [TextBlock ''ok'']) (\<lambda>name. None)"
         and pr_text = "''doc''" and getenv = "\<lambda>name. None"
         and Anthropic = "\<lambda>key request. Inr [TextBlock ''ok'']"]
  note b = generate_review_not_configured
      [where self = "reviewer_init (\<lambda>key request. Inr [TextBlock ''ok'']) (\<lambda>name. None)"
         and pr_text = "''doc''"
         and getenv = "\<lambda>name. if name = ''ANTHROPIC_API_KEY'' then Some [] else Some ''t''"
         and Anthropic = "\<lambda>key request. Inr [TextBlock ''ok'']"]
  show ?thesis
    using a b by simp
qed

section \<open>Which stages can raise\<close>




end
